theory Spec2Isabelle
  imports Main
begin

section \<open>The environment of the provisioning script\<close>

text \<open>
  The script (\<^verbatim>\<open>trial.py\<close>) talks to the outside through subprocesses, the operator's
  keyboard, the console, the logging module, the clock, one file and one HTTP endpoint. The
  model threads a \<open>world\<close> through every function: the environment's answers are oracles
  (\<open>shell\<close> indexed by how many subprocesses have run, \<open>keyboard\<close> by how many lines
  have been read, \<open>files\<close> by path, \<open>http\<close> by URL and body; \<open>home\<close>,
  \<open>import_stamp\<close>, \<open>time_ms\<close> and \<open>now_stamp\<close> are what \<^verbatim>\<open>Path.home()\<close>, the clock
  at import, \<^verbatim>\<open>int(time.time() * 1000)\<close> and the clock in \<^verbatim>\<open>create_project\<close> yield), and
  everything the script does is appended to \<open>trace\<close>.

  Strings are their UTF-8 bytes. Captured output (\<^verbatim>\<open>bytes\<close>) is any byte sequence:
  \<^verbatim>\<open>.decode()\<close> yields the same bytes as text when they are well-formed UTF-8 and
  raises \<^verbatim>\<open>UnicodeDecodeError\<close> otherwise. Python exceptions, \<^verbatim>\<open>SystemExit\<close>
  included, are values of \<open>exn\<close>; a function that can raise returns \<open>exn + 'a\<close>.
\<close>

type_synonym bytes = string

type_synonym completed = "bytes \<times> bytes \<times> int"

datatype exn =
    SystemExit int
  | TypeError
  | IndexError
  | KeyError
  | EOFError
  | OSError
  | ValueError
  | RequestException
  | HttpError int
  | UnicodeDecodeError

text \<open>
  \<^verbatim>\<open>bytes.decode()\<close> with the default codec (UTF-8, strict): a byte below 128 stands
  alone; a lead byte 194--223, 224--239 or 240--244 takes one, two or three continuation
  bytes (128--191), where the first continuation is narrowed after 224 (no overlong form),
  237 (no surrogate), 240 (no overlong form) and 244 (nothing above U+10FFFF); every other
  byte, and a sequence cut short, is an error.
\<close>

definition continuation :: "nat \<Rightarrow> bool" where
  "continuation b = (128 \<le> b \<and> b \<le> 191)"

fun well_formed :: "nat list \<Rightarrow> bool" where
  "well_formed [] = True"
| "well_formed (b # bs) =
     (if b < 128 then well_formed bs
      else if 194 \<le> b \<and> b \<le> 223 then
        (case bs of
           c1 # rest \<Rightarrow> continuation c1 \<and> well_formed rest
         | _ \<Rightarrow> False)
      else if 224 \<le> b \<and> b \<le> 239 then
        (case bs of
           c1 # c2 # rest \<Rightarrow>
             (if b = 224 then 160 \<le> c1 \<and> c1 \<le> 191
              else if b = 237 then 128 \<le> c1 \<and> c1 \<le> 159
              else continuation c1)
             \<and> continuation c2 \<and> well_formed rest
         | _ \<Rightarrow> False)
      else if 240 \<le> b \<and> b \<le> 244 then
        (case bs of
           c1 # c2 # c3 # rest \<Rightarrow>
             (if b = 240 then 144 \<le> c1 \<and> c1 \<le> 191
              else if b = 244 then 128 \<le> c1 \<and> c1 \<le> 143
              else continuation c1)
             \<and> continuation c2 \<and> continuation c3 \<and> well_formed rest
         | _ \<Rightarrow> False)
      else False)"

definition decodable :: "bytes \<Rightarrow> bool" where
  "decodable bs = well_formed (map of_char bs)"

definition decode :: "bytes \<Rightarrow> exn + string" where
  "decode bs = (if decodable bs then Inr bs else Inl UnicodeDecodeError)"

text \<open>
  JSON values as \<^verbatim>\<open>json.loads\<close> yields them (numbers are integers in the model), and
  Python's subscript \<^verbatim>\<open>v[k]\<close> on them: a missing key raises \<^verbatim>\<open>KeyError\<close>, an index
  out of range \<^verbatim>\<open>IndexError\<close>, a key of the wrong kind or a value that cannot be
  subscripted \<^verbatim>\<open>TypeError\<close>. \<open>then_do\<close> sequences two steps that can raise.
\<close>

datatype json =
    JNull
  | JBool bool
  | JNum int
  | JStr string
  | JArr "json list"
  | JObj "(string \<times> json) list"

datatype key = KStr string | KInt int

definition then_do :: "exn + 'a \<Rightarrow> ('a \<Rightarrow> exn + 'b) \<Rightarrow> exn + 'b" where
  "then_do m f = (case m of Inl e \<Rightarrow> Inl e | Inr x \<Rightarrow> f x)"

definition index :: "'a list \<Rightarrow> int \<Rightarrow> exn + 'a" where
  "index xs i =
     (if 0 \<le> i \<and> i < int (length xs) then Inr (xs ! nat i)
      else if i < 0 \<and> - int (length xs) \<le> i then Inr (xs ! nat (int (length xs) + i))
      else Inl IndexError)"

fun subscript :: "json \<Rightarrow> key \<Rightarrow> exn + json" where
  "subscript (JObj kvs) (KStr k) = (case map_of kvs k of None \<Rightarrow> Inl KeyError | Some v \<Rightarrow> Inr v)"
| "subscript (JObj kvs) (KInt i) = Inl KeyError"
| "subscript (JArr xs) (KInt i) = index xs i"
| "subscript (JArr xs) (KStr k) = Inl TypeError"
| "subscript (JStr s) (KInt i) = then_do (index s i) (\<lambda>c. Inr (JStr [c]))"
| "subscript (JStr s) (KStr k) = Inl TypeError"
| "subscript v k = Inl TypeError"

datatype level = DEBUG | INFO | ERROR | CRITICAL

datatype arg = AStr string | AInt int

datatype event =
    Exec string
  | Sleep int
  | Log level string "arg list"
  | Print string
  | Prompt string
  | System string
  | Open string
  | Post string json

record world =
  shell :: "string \<Rightarrow> nat \<Rightarrow> completed"
  keyboard :: "nat \<Rightarrow> string option"
  files :: "string \<Rightarrow> bytes option"
  http :: "string \<Rightarrow> json \<Rightarrow> exn + int"
  home :: string
  import_stamp :: string
  time_ms :: int
  now_stamp :: string
  procs :: nat
  reads :: nat
  trace :: "event list"

text \<open>
  An environment in which every subprocess succeeds without output, nobody is at the
  keyboard, no file exists and every HTTP request is answered with status 200. The
  concrete environments below change what they need.
\<close>

definition blank_world :: world where
  "blank_world =
     \<lparr>shell = (\<lambda>command k. ([], [], 0)), keyboard = (\<lambda>k. None), files = (\<lambda>path. None),
      http = (\<lambda>url body. Inr 200), home = ''/home/operator'',
      import_stamp = ''2023-03-01-09-00-00'', time_ms = 1677661200000,
      now_stamp = ''2023-03-01-09-00-05'', procs = 0, reads = 0, trace = []\<rparr>"

definition emit :: "event \<Rightarrow> world \<Rightarrow> world" where
  "emit e w = w\<lparr>trace := trace w @ [e]\<rparr>"

definition logging :: "level \<Rightarrow> string \<Rightarrow> arg list \<Rightarrow> world \<Rightarrow> world" where
  "logging l fmt args w = emit (Log l fmt args) w"

text \<open>
  \<^verbatim>\<open>asyncio.create_subprocess_shell(command, ...)\<close> followed by
  \<^verbatim>\<open>process.communicate()\<close>: the next subprocess of the environment runs the command
  and yields (stdout, stderr, returncode).
\<close>

definition create_subprocess_shell :: "string \<Rightarrow> world \<Rightarrow> completed \<times> world" where
  "create_subprocess_shell command w =
     (shell w command (procs w), emit (Exec command) (w\<lparr>procs := Suc (procs w)\<rparr>))"

definition sleep :: "int \<Rightarrow> world \<Rightarrow> world" where
  "sleep delay w = emit (Sleep delay) w"

section \<open>retryable\_command\<close>

text \<open>
  The \<^verbatim>\<open>while num_tries <= max_num_retries\<close> loop of \<^verbatim>\<open>retryable_command\<close>
  (trial.py, lines 260--285), with \<open>num_tries\<close> as the loop variable. The arguments of
  the debug records of lines 270 and 271 and of the critical record of line 284 are
  \<^verbatim>\<open>stdout.decode()\<close> and \<^verbatim>\<open>stderr.decode()\<close>, evaluated before the record is
  made: output that is not UTF-8 raises there. Falling out of the loop is Python's
  implicit \<^verbatim>\<open>return None\<close>: \<open>Inr None\<close>.
\<close>

function retry_loop ::
  "string \<Rightarrow> int \<Rightarrow> int \<Rightarrow> bool \<Rightarrow> bool \<Rightarrow> int \<Rightarrow> world \<Rightarrow> (exn + completed option) \<times> world"
where
  "retry_loop command max_num_retries retry_delay suppress_errors require_output num_tries w =
     (if num_tries \<le> max_num_retries then
        (let w1 = logging DEBUG ''Executing command (attempt %d): %s''
                    [AInt num_tries, AStr command] w;
             ((stdout, stderr, return_code), w2) = create_subprocess_shell command w1
         in case decode stdout of
              Inl e \<Rightarrow> (Inl e, w2)
            | Inr stdout_text \<Rightarrow>
                (let w3 = logging DEBUG ''stdout: %s'' [AStr stdout_text] w2
                 in case decode stderr of
                      Inl e \<Rightarrow> (Inl e, w3)
                    | Inr stderr_text \<Rightarrow>
                        (let w4 = logging DEBUG ''stderr: %s'' [AStr stderr_text] w3;
                             w5 = logging DEBUG ''Return code: %d'' [AInt return_code] w4
                         in if return_code = 0
                               \<and> (\<not> require_output \<or> (require_output \<and> stdout \<noteq> []))
                            then (Inr (Some (stdout, stderr, return_code)), w5)
                            else if num_tries < max_num_retries
                            then retry_loop command max_num_retries retry_delay suppress_errors
                                   require_output (num_tries + 1) (sleep retry_delay w5)
                            else if suppress_errors
                            then (Inr (Some (stdout, stderr, return_code)), w5)
                            else (case decode stderr of
                                    Inl e \<Rightarrow> (Inl e, w5)
                                  | Inr failure_text \<Rightarrow>
                                      (Inl (SystemExit return_code),
                                       logging CRITICAL ''Failed to execute command: `%s`''
                                         [AStr failure_text] w5)))))
      else (Inr None, w))"
  by pat_completeness auto
termination
  by (relation "measure (\<lambda>(command, max_num_retries, retry_delay, suppress_errors,
        require_output, num_tries, w). nat (max_num_retries - num_tries))") auto

definition retryable_command ::
  "string \<Rightarrow> int \<Rightarrow> int \<Rightarrow> bool \<Rightarrow> bool \<Rightarrow> world \<Rightarrow> (exn + completed option) \<times> world"
where
  "retryable_command command max_num_retries retry_delay suppress_errors require_output w =
     retry_loop command max_num_retries retry_delay suppress_errors require_output 1 w"

text \<open>
  Tuple unpacking of the awaited result, \<^verbatim>\<open>a, b, c = await retryable_command(...)\<close>:
  unpacking \<^verbatim>\<open>None\<close> raises \<^verbatim>\<open>TypeError\<close>.
\<close>

definition unpack3 :: "completed option \<Rightarrow> exn + completed" where
  "unpack3 v = (case v of None \<Rightarrow> Inl TypeError | Some t \<Rightarrow> Inr t)"

subsection \<open>Vocabulary for statements about one call\<close>

text \<open>
  What one pass through the loop body appends to the trace up to line 272 when the output
  decodes (the debug records and the subprocess), and the world after it; \<open>cut_short j\<close>
  is the world when the pass raises after its first \<open>j\<close> events. \<open>decodes r\<close>: both
  streams of the completed process are well-formed UTF-8.
\<close>

definition attempt_events :: "string \<Rightarrow> int \<Rightarrow> completed \<Rightarrow> event list" where
  "attempt_events command num_tries r =
     (case r of (stdout, stderr, return_code) \<Rightarrow>
        [Log DEBUG ''Executing command (attempt %d): %s'' [AInt num_tries, AStr command],
         Exec command,
         Log DEBUG ''stdout: %s'' [AStr stdout],
         Log DEBUG ''stderr: %s'' [AStr stderr],
         Log DEBUG ''Return code: %d'' [AInt return_code]])"

definition after_attempt :: "string \<Rightarrow> int \<Rightarrow> world \<Rightarrow> world" where
  "after_attempt command num_tries w =
     w\<lparr>procs := Suc (procs w),
       trace := trace w @ attempt_events command num_tries (shell w command (procs w))\<rparr>"

definition cut_short :: "nat \<Rightarrow> string \<Rightarrow> int \<Rightarrow> world \<Rightarrow> world" where
  "cut_short j command num_tries w =
     w\<lparr>procs := Suc (procs w),
       trace := trace w @ take j (attempt_events command num_tries (shell w command (procs w)))\<rparr>"


definition return_code_of :: "completed \<Rightarrow> int" where
  "return_code_of r = (case r of (stdout, stderr, return_code) \<Rightarrow> return_code)"

definition stderr_of :: "completed \<Rightarrow> bytes" where
  "stderr_of r = (case r of (stdout, stderr, return_code) \<Rightarrow> stderr)"

text \<open>The trace without its debug records, and the events a run added to a world.\<close>

definition above_debug :: "event list \<Rightarrow> event list" where
  "above_debug es = filter (\<lambda>e. case e of Log DEBUG fmt args \<Rightarrow> False | _ \<Rightarrow> True) es"

definition since :: "world \<Rightarrow> world \<Rightarrow> event list" where
  "since w w' = drop (length (trace w)) (trace w')"


subsection \<open>Concrete environments\<close>

text \<open>
  In \<open>flaky_world\<close> the first subprocess fails with status 1 and every later one with
  status 2. In \<open>quiet_world\<close> the first subprocess succeeds without output and every
  later one prints a project identifier. In \<open>garbled_world\<close> every subprocess fails and
  writes the byte 255 to its stdout.
\<close>

definition flaky_world :: world where
  "flaky_world =
     blank_world\<lparr>shell := (\<lambda>command k.
        if k = 0 then ([], ''first failure'', 1) else ([], ''second failure'', 2))\<rparr>"

definition quiet_world :: world where
  "quiet_world =
     blank_world\<lparr>shell := (\<lambda>command k. if k = 0 then ([], [], 0) else (''my-project'', [], 0))\<rparr>"

definition garbled_world :: world where
  "garbled_world = blank_world\<lparr>shell := (\<lambda>command k. ([CHR 0xFF], ''failure'', 1))\<rparr>"

section \<open>Strings, console and keyboard\<close>

text \<open>
  Python's \<^verbatim>\<open>needle in haystack\<close> on strings and \<^verbatim>\<open>str.lower()\<close>. \<open>lower\<close> maps
  the ASCII capitals and leaves every other character alone; that agrees with Python on
  every comparison with an ASCII string, since no other character lowers to an ASCII
  letter.
\<close>

fun startswith :: "string \<Rightarrow> string \<Rightarrow> bool" where
  "startswith s [] = True"
| "startswith [] (p # ps) = False"
| "startswith (c # cs) (p # ps) = (c = p \<and> startswith cs ps)"

fun contains :: "string \<Rightarrow> string \<Rightarrow> bool" where
  "contains needle [] = (needle = [])"
| "contains needle (c # cs) = (startswith (c # cs) needle \<or> contains needle cs)"

definition lower_char :: "char \<Rightarrow> char" where
  "lower_char c =
     (case map_of (zip ''ABCDEFGHIJKLMNOPQRSTUVWXYZ'' ''abcdefghijklmnopqrstuvwxyz'') c of
        None \<Rightarrow> c
      | Some l \<Rightarrow> l)"

definition lower :: "string \<Rightarrow> string" where
  "lower s = map lower_char s"

definition py_print :: "string \<Rightarrow> world \<Rightarrow> world" where
  "py_print s w = emit (Print s) w"

definition py_input :: "string \<Rightarrow> world \<Rightarrow> (exn + string) \<times> world" where
  "py_input prompt w =
     (case keyboard w (reads w) of
        None \<Rightarrow> (Inl EOFError, emit (Prompt prompt) w)
      | Some line \<Rightarrow> (Inr line, emit (Prompt prompt) (w\<lparr>reads := Suc (reads w)\<rparr>)))"


section \<open>verify\_tos\_accepted\<close>

text \<open>
  The module constants of \<^verbatim>\<open>trial.py\<close> and the texts of lines 90--101. The check mark
  (U+2705) that ends the progress messages is written as its three UTF-8 bytes.
\<close>

definition APIS :: "string list" where
  "APIS = [''admin.googleapis.com'', ''contacts.googleapis.com'', ''gmail.googleapis.com'',
           ''drive.googleapis.com'', ''driveactivity.googleapis.com'']"

definition CHECK_MARK :: string where
  "CHECK_MARK = [CHR 0xE2, CHR 0x9C, CHR 0x85]"

definition universal_notice :: string where
  "universal_notice =
     ''You must first accept the Google APIs Terms of Service. You can accept the terms of service by clicking https://console.developers.google.com/terms/universal and clicking 'Accept'.'' @ [CHR 0x0A]"

definition appsadmin_notice :: string where
  "appsadmin_notice =
     ''You must first accept the Google Apps Admin APIs Terms of Service. You can accept the terms of service by clicking https://console.developers.google.com/terms/appsadmin and clicking 'Accept'.'' @ [CHR 0x0A]"

definition tos_prompt :: string where
  "tos_prompt = ''If you've accepted the terms of service, press Enter to try again or 'n' to cancel:''"


text \<open>
  The \<^verbatim>\<open>while APIS and not tos_accepted\<close> loop of \<^verbatim>\<open>verify_tos_accepted\<close> (lines
  81--108). Nothing bounds the number of passes, so the loop is a partial function: a run
  that never leaves the loop has the value \<open>None\<close>. \<^verbatim>\<open>sys.exit(n)\<close> is
  \<open>Inl (SystemExit n)\<close>; \<^verbatim>\<open>input\<close> at the end of the input raises \<^verbatim>\<open>EOFError\<close>;
  \<^verbatim>\<open>stderr.decode()\<close> of line 86 raises on bytes that are not UTF-8.
\<close>

partial_function (option) tos_loop ::
  "string list \<Rightarrow> bool \<Rightarrow> world \<Rightarrow> ((exn + unit) \<times> world) option"
where [code]:
  "tos_loop apis tos_accepted w =
     (if apis \<noteq> [] \<and> \<not> tos_accepted then
        (let command = ''gcloud services enable '' @ apis ! 0 in
         case retryable_command command 1 5 True False w of
           (Inl e, w1) \<Rightarrow> Some (Inl e, w1)
         | (Inr v, w1) \<Rightarrow>
             (case unpack3 v of
                Inl e \<Rightarrow> Some (Inl e, w1)
              | Inr (stdout, stderr, return_code) \<Rightarrow>
                  if return_code \<noteq> 0 then
                    (case decode stderr of
                       Inl e \<Rightarrow> Some (Inl e, w1)
                     | Inr err_str \<Rightarrow>
                         if contains ''UREQ_TOS_NOT_ACCEPTED'' err_str then
                           (let w2 =
                              (if contains ''universal'' err_str then
                                 py_print universal_notice
                                   (logging DEBUG ''Google APIs Terms of Service not accepted'' [] w1)
                               else if contains ''appsadmin'' err_str then
                                 py_print appsadmin_notice
                                   (logging DEBUG
                                      ''Google Apps Admin APIs Terms of Service not accepted'' [] w1)
                               else w1)
                            in case py_input tos_prompt w2 of
                                 (Inl e, w3) \<Rightarrow> Some (Inl e, w3)
                               | (Inr answer, w3) \<Rightarrow>
                                   if lower answer = ''n'' then Some (Inl (SystemExit 0), w3)
                                   else tos_loop apis tos_accepted w3)
                         else Some (Inl (SystemExit 1), logging CRITICAL err_str [] w1))
                  else tos_loop apis True w1))
      else Some (Inr (), w))"

definition verify_tos_accepted :: "world \<Rightarrow> ((exn + unit) \<times> world) option" where
  "verify_tos_accepted w =
     (case tos_loop APIS False
             (logging INFO ''Verifying acceptance of Terms of service...'' [] w) of
        None \<Rightarrow> None
      | Some (Inl e, w1) \<Rightarrow> Some (Inl e, w1)
      | Some (Inr u, w1) \<Rightarrow>
          Some (Inr (), logging INFO (''Terms of service acceptance verified '' @ CHECK_MARK) [] w1))"

subsection \<open>Vocabulary for statements about the loop\<close>

text \<open>
  The probe command, the notice of lines 88--99, the world after one blocked pass (probe,
  notice, prompt, one line read), and the environments in which the \<open>i\<close>-th coming probe
  fails with the marker, in output that decodes, and the \<open>i\<close>-th coming answer is not
  \<^verbatim>\<open>n\<close> in either case.
\<close>

definition probe_command :: "string list \<Rightarrow> string" where
  "probe_command apis = ''gcloud services enable '' @ apis ! 0"

definition tos_notice :: "string \<Rightarrow> world \<Rightarrow> world" where
  "tos_notice err_str w =
     (if contains ''universal'' err_str then
        py_print universal_notice (logging DEBUG ''Google APIs Terms of Service not accepted'' [] w)
      else if contains ''appsadmin'' err_str then
        py_print appsadmin_notice
          (logging DEBUG ''Google Apps Admin APIs Terms of Service not accepted'' [] w)
      else w)"

definition blocked_cycle :: "string list \<Rightarrow> world \<Rightarrow> world" where
  "blocked_cycle apis w =
     (let w1 = after_attempt (probe_command apis) 1 w;
          w2 = tos_notice (stderr_of (shell w (probe_command apis) (procs w))) w1
      in emit (Prompt tos_prompt) (w2\<lparr>reads := Suc (reads w2)\<rparr>))"

definition tos_refused :: "string list \<Rightarrow> world \<Rightarrow> nat \<Rightarrow> bool" where
  "tos_refused apis w i =
     ((case shell w (probe_command apis) (procs w + i) of
         (stdout, stderr, return_code) \<Rightarrow>
           return_code \<noteq> 0 \<and> decodable stdout \<and> decodable stderr
           \<and> contains ''UREQ_TOS_NOT_ACCEPTED'' stderr)
      \<and> (case keyboard w (reads w + i) of
           None \<Rightarrow> False
         | Some answer \<Rightarrow> answer \<noteq> ''n'' \<and> answer \<noteq> ''N''))"

definition execs :: "event list \<Rightarrow> event list" where
  "execs es = filter (\<lambda>e. case e of Exec c \<Rightarrow> True | _ \<Rightarrow> False) es"

subsection \<open>Concrete environments for the loop\<close>

definition tos_world :: world where
  "tos_world =
     blank_world\<lparr>shell := (\<lambda>command k.
         if k = 0 then ([], ''ERROR: UREQ_TOS_NOT_ACCEPTED: see terms/universal'', 1)
         else if k = 1 then ([], ''ERROR: UREQ_TOS_NOT_ACCEPTED: see terms/appsadmin'', 1)
         else ([], [], 0)),
      keyboard := (\<lambda>k. if k = 0 then Some [] else if k = 1 then Some ''y'' else None)\<rparr>"

definition cancel_world :: world where
  "cancel_world =
     blank_world\<lparr>shell := (\<lambda>command k. ([], ''ERROR: UREQ_TOS_NOT_ACCEPTED'', 1)),
      keyboard := (\<lambda>k. Some ''N'')\<rparr>"

definition stubborn_world :: world where
  "stubborn_world =
     blank_world\<lparr>shell := (\<lambda>command k. ([], ''ERROR: UREQ_TOS_NOT_ACCEPTED'', 1)),
      keyboard := (\<lambda>k. Some [])\<rparr>"

definition denied_world :: world where
  "denied_world =
     blank_world\<lparr>shell := (\<lambda>command k. ([], ''ERROR: PERMISSION_DENIED'', 2))\<rparr>"

definition mangled_world :: world where
  "mangled_world =
     blank_world\<lparr>shell := (\<lambda>command k. ([], [CHR 0xC3, CHR 0x28], 1))\<rparr>"

section \<open>is\_service\_disabled and is\_api\_disabled\<close>

text \<open>
  \<^verbatim>\<open>needle in v\<close> for a string needle: substring of a string, element of a list, key of
  a dictionary, \<^verbatim>\<open>TypeError\<close> otherwise. \<^verbatim>\<open>json.loads\<close> is a parameter of the model
  (\<open>None\<close>: it raises). Each \<^verbatim>\<open>try\<close> block is a computation that yields the truth
  value of its condition or the exception that the bare \<^verbatim>\<open>except\<close> swallows.
  The condition of line 240, \<^verbatim>\<open>"notACalendarUser" or "notFound" or "authError" in error_reason\<close>,
  is Python's short-circuit \<^verbatim>\<open>or\<close> over two string literals and one containment test.
\<close>

fun py_in :: "string \<Rightarrow> json \<Rightarrow> exn + bool" where
  "py_in needle (JStr s) = Inr (contains needle s)"
| "py_in needle (JArr xs) = Inr (JStr needle \<in> set xs)"
| "py_in needle (JObj kvs) = Inr (needle \<in> fst ` set kvs)"
| "py_in needle v = Inl TypeError"


definition json_loads :: "(bytes \<Rightarrow> json option) \<Rightarrow> bytes \<Rightarrow> exn + json" where
  "json_loads loads raw = (case loads raw of None \<Rightarrow> Inl ValueError | Some v \<Rightarrow> Inr v)"

definition error_reason_of :: "json \<Rightarrow> exn + json" where
  "error_reason_of api_response =
     then_do (subscript api_response (KStr ''error'')) (\<lambda>v1.
     then_do (subscript v1 (KStr ''errors'')) (\<lambda>v2.
     then_do (subscript v2 (KInt 0)) (\<lambda>v3.
     subscript v3 (KStr ''reason''))))"

definition error_message_of :: "json \<Rightarrow> exn + json" where
  "error_message_of api_response =
     then_do (subscript api_response (KStr ''error'')) (\<lambda>v1.
     subscript v1 (KStr ''message''))"

definition truthy :: "string \<Rightarrow> bool" where
  "truthy s = (s \<noteq> [])"

definition is_service_disabled :: "(bytes \<Rightarrow> json option) \<Rightarrow> bytes option \<Rightarrow> bool" where
  "is_service_disabled loads raw_api_response =
     (case raw_api_response of
        None \<Rightarrow> True
      | Some raw \<Rightarrow>
          if then_do (json_loads loads raw) (\<lambda>api_response.
             then_do (error_reason_of api_response) (\<lambda>error_reason.
               if truthy ''notACalendarUser'' then Inr True
               else if truthy ''notFound'' then Inr True
               else py_in ''authError'' error_reason)) = Inr True
          then True
          else if then_do (json_loads loads raw) (\<lambda>api_response.
                  then_do (error_message_of api_response) (\<lambda>message.
                    py_in ''service not enabled'' message)) = Inr True
          then True
          else False)"

definition is_api_disabled :: "(bytes \<Rightarrow> json option) \<Rightarrow> bytes option \<Rightarrow> bool" where
  "is_api_disabled loads raw_api_response =
     (case raw_api_response of
        None \<Rightarrow> True
      | Some raw \<Rightarrow>
          (case then_do (json_loads loads raw) (\<lambda>api_response.
                then_do (error_message_of api_response) (\<lambda>message.
                  py_in ''it is disabled'' message)) of
             Inr b \<Rightarrow> b
           | Inl e \<Rightarrow> False))"

definition rate_limit_response :: json where
  "rate_limit_response =
     JObj [(''error'',
       JObj [(''errors'', JArr [JObj [(''domain'', JStr ''usageLimits''),
                                       (''reason'', JStr ''rateLimitExceeded'')]]),
             (''code'', JNum 403),
             (''message'', JStr ''Rate Limit Exceeded'')])]"

definition sample_loads :: "bytes \<Rightarrow> json option" where
  "sample_loads raw = (if raw = ''rate-limit-body'' then Some rate_limit_response else None)"

section \<open>The domain-wide-delegation URL\<close>

text \<open>
  \<^verbatim>\<open>",".join(xs)\<close>, and \<^verbatim>\<open>urllib.parse.quote(s, safe="")\<close> on the UTF-8 bytes of the
  string: letters, digits and \<^verbatim>\<open>_.-~\<close> stay, every other byte becomes \<^verbatim>\<open>%XX\<close> with
  capital hexadecimal digits. \<open>unquote\<close> is percent-decoding as
  \<^verbatim>\<open>urllib.parse.unquote_to_bytes\<close> does it: a \<^verbatim>\<open>%\<close> followed by two hexadecimal
  digits of either case is one byte, any other \<^verbatim>\<open>%\<close> stays. \<open>DWD_URL_FORMAT a b\<close> is
  \<^verbatim>\<open>DWD_URL_FORMAT.format(a, b)\<close>.
\<close>

fun join :: "string \<Rightarrow> string list \<Rightarrow> string" where
  "join sep [] = []"
| "join sep [x] = x"
| "join sep (x # y # rest) = x @ sep @ join sep (y # rest)"

definition always_safe :: "char \<Rightarrow> bool" where
  "always_safe c =
     (let n = (of_char c :: nat)
      in (65 \<le> n \<and> n \<le> 90) \<or> (97 \<le> n \<and> n \<le> 122) \<or> (48 \<le> n \<and> n \<le> 57)
         \<or> c = CHR ''_'' \<or> c = CHR ''.'' \<or> c = CHR ''-'' \<or> c = CHR ''~'')"

definition hexdigit :: "nat \<Rightarrow> char" where
  "hexdigit n = (if n < 10 then char_of (48 + n) else char_of (55 + n))"

definition quoter :: "char \<Rightarrow> string" where
  "quoter c =
     (if always_safe c then [c]
      else [CHR ''%'', hexdigit ((of_char c :: nat) div 16), hexdigit ((of_char c :: nat) mod 16)])"

definition quote :: "string \<Rightarrow> string" where
  "quote s = concat (map quoter s)"

definition hexval :: "char \<Rightarrow> nat option" where
  "hexval c =
     (let n = (of_char c :: nat)
      in if 48 \<le> n \<and> n \<le> 57 then Some (n - 48)
         else if 65 \<le> n \<and> n \<le> 70 then Some (n - 55)
         else if 97 \<le> n \<and> n \<le> 102 then Some (n - 87)
         else None)"

fun unquote :: "string \<Rightarrow> string" where
  "unquote [] = []"
| "unquote (c # a # b # rest) =
     (case (c = CHR ''%'', hexval a, hexval b) of
        (True, Some h, Some l) \<Rightarrow> char_of (16 * h + l) # unquote rest
      | _ \<Rightarrow> c # unquote (a # b # rest))"
| "unquote (c # rest) = c # unquote rest"

definition DWD_URL_FORMAT :: "string \<Rightarrow> string \<Rightarrow> string" where
  "DWD_URL_FORMAT a b =
     ''https://admin.google.com/ac/owl/domainwidedelegation?overwriteClientId=true&clientIdToAdd=''
       @ a @ ''&clientScopeToAdd='' @ b"

definition SCOPES :: "string list" where
  "SCOPES = [''https://www.googleapis.com/auth/drive'',
             ''https://www.googleapis.com/auth/drive.activity.readonly'',
             ''https://www.googleapis.com/auth/admin.directory.user'']"


text \<open>
  Lines 140--141 of \<^verbatim>\<open>authorize_service_account\<close> (trial.py): the scope list is joined
  with commas, quoted with no safe characters, and put into the URL format after the
  service account's unique id.
\<close>

definition trial_authorize_url :: "string list \<Rightarrow> string \<Rightarrow> string" where
  "trial_authorize_url scopes_list service_account_id =
     (let scopes = quote (join '','' scopes_list)
      in DWD_URL_FORMAT service_account_id scopes)"

text \<open>\<^verbatim>\<open>create_auth_url\<close> of new.py (lines 266--270); \<open>scopes_list\<close> stands for
  \<^verbatim>\<open>configs["SCOPES"]\<close>, whose value is \<open>configs_SCOPES\<close>.\<close>

definition configs_SCOPES :: "string list" where
  "configs_SCOPES =
     [''openid'',
      ''https://www.googleapis.com/auth/cloud-platform'',
      ''https://www.googleapis.com/auth/ndev.cloudman'',
      ''https://www.googleapis.com/auth/userinfo.profile'',
      ''https://www.googleapis.com/auth/userinfo.email'',
      ''https://www.googleapis.com/auth/admin.directory.orgunit.readonly'',
      ''https://www.googleapis.com/auth/admin.directory.user.readonly'',
      ''https://www.googleapis.com/auth/admin.directory.group.readonly'',
      ''https://www.googleapis.com/auth/gmail.settings.basic'',
      ''https://www.googleapis.com/auth/gmail.settings.sharing'',
      ''https://www.googleapis.com/auth/directory.readonly'',
      ''https://www.googleapis.com/auth/drive.readonly'',
      ''https://www.googleapis.com/auth/drive'',
      ''https://www.googleapis.com/auth/admin.directory.domain.readonly'',
      ''https://www.googleapis.com/auth/admin.directory.user'',
      ''https://www.googleapis.com/auth/admin.directory.group'',
      ''https://www.googleapis.com/auth/admin.datatransfer'',
      ''https://mail.google.com/'',
      ''https://www.googleapis.com/auth/admin.reports.audit.readonly'',
      ''https://www.googleapis.com/auth/calendar'',
      ''https://www.googleapis.com/auth/ediscovery'',
      ''https://www.googleapis.com/auth/devstorage.full_control'',
      ''https://www.googleapis.com/auth/admin.reports.usage.readonly'']"

definition create_auth_url :: "string list \<Rightarrow> string \<Rightarrow> string" where
  "create_auth_url scopes_list service_account_unique_id =
     (let scopes = quote (join '','' scopes_list);
          authorize_url = DWD_URL_FORMAT service_account_unique_id scopes
      in authorize_url)"

subsection \<open>Vocabulary for statements about the URL\<close>

text \<open>
  \<^verbatim>\<open>str.split(sep)\<close> for a separator of one character. \<open>scope_parameter url\<close> is what a
  reader of the URL finds as the value of its last parameter: the text after the last
  \<^verbatim>\<open>=\<close>. \<open>comma_joined\<close> is the comma-joined list in the words of the specification:
  the first scope, then every further scope behind a comma.
\<close>

fun split_on :: "char \<Rightarrow> string \<Rightarrow> string list" where
  "split_on sep [] = [[]]"
| "split_on sep (c # cs) =
     (if c = sep then [] # split_on sep cs
      else (case split_on sep cs of [] \<Rightarrow> [[c]] | p # ps \<Rightarrow> (c # p) # ps))"

definition scope_parameter :: "string \<Rightarrow> string" where
  "scope_parameter url = last (split_on CHR ''='' url)"

primrec comma_joined :: "string list \<Rightarrow> string" where
  "comma_joined [] = []"
| "comma_joined (x # xs) = x @ concat (map (\<lambda>s. CHR '','' # s) xs)"

section \<open>Creating the service account\<close>



definition TOOL_NAME_FRIENDLY :: string where
  "TOOL_NAME_FRIENDLY = ''Pawa IT Drive Audit Tool''"




subsection \<open>Vocabulary and environments for the creation step\<close>






section \<open>Properties of retryable\_command\<close>

declare retry_loop.simps [simp del]

lemma retry_loop_body:
  assumes "num_tries \<le> max_num_retries" and "shell w command (procs w) = (out, err, rc)"
    and "decodable out" and "decodable err"
  shows "retry_loop command max_num_retries retry_delay suppress_errors require_output num_tries w =
     (if rc = 0 \<and> (\<not> require_output \<or> out \<noteq> [])
      then (Inr (Some (out, err, rc)), after_attempt command num_tries w)
      else if num_tries < max_num_retries
      then retry_loop command max_num_retries retry_delay suppress_errors require_output
             (num_tries + 1) (sleep retry_delay (after_attempt command num_tries w))
      else if suppress_errors
      then (Inr (Some (out, err, rc)), after_attempt command num_tries w)
      else (Inl (SystemExit rc),
            logging CRITICAL ''Failed to execute command: `%s`'' [AStr err]
              (after_attempt command num_tries w)))"
  using assms
  by (subst retry_loop.simps)
     (auto simp: Let_def create_subprocess_shell_def logging_def emit_def after_attempt_def
        attempt_events_def decode_def)

lemma retry_loop_raises:
  assumes "num_tries \<le> max_num_retries" and "shell w command (procs w) = (out, err, rc)"
    and "\<not> (decodable out \<and> decodable err)"
  shows "retry_loop command max_num_retries retry_delay suppress_errors require_output num_tries w =
     (Inl UnicodeDecodeError,
      cut_short (if decodable out then 3 else 2) command num_tries w)"
  using assms
  by (subst retry_loop.simps)
     (auto simp: Let_def create_subprocess_shell_def logging_def emit_def cut_short_def
        attempt_events_def decode_def)

lemma retry_loop_exit:
  "\<not> num_tries \<le> max_num_retries \<Longrightarrow>
   retry_loop command max_num_retries retry_delay suppress_errors require_output num_tries w = (Inr None, w)"
  by (subst retry_loop.simps) simp

lemma after_attempt_fields [simp]:
  "shell (after_attempt c n w) = shell w"
  "keyboard (after_attempt c n w) = keyboard w"
  "procs (after_attempt c n w) = Suc (procs w)"
  "reads (after_attempt c n w) = reads w"
  by (simp_all add: after_attempt_def)

lemma sleep_fields [simp]:
  "shell (sleep d w) = shell w"
  "keyboard (sleep d w) = keyboard w"
  "procs (sleep d w) = procs w"
  "reads (sleep d w) = reads w"
  "trace (sleep d w) = trace w @ [Sleep d]"
  by (auto simp: sleep_def emit_def)

lemma logging_fields [simp]:
  "shell (logging l f a w) = shell w"
  "keyboard (logging l f a w) = keyboard w"
  "procs (logging l f a w) = procs w"
  "reads (logging l f a w) = reads w"
  "trace (logging l f a w) = trace w @ [Log l f a]"
  by (auto simp: logging_def emit_def)

lemma after_attempt_trace [simp]:
  "trace (after_attempt c n w) = trace w @ attempt_events c n (shell w c (procs w))"
  by (simp add: after_attempt_def)

lemma above_debug_append [simp]: "above_debug (xs @ ys) = above_debug xs @ above_debug ys"
  by (simp add: above_debug_def)

lemma above_debug_simps [simp]:
  "above_debug [] = []"
  "above_debug (Log DEBUG f a # es) = above_debug es"
  "above_debug (Log CRITICAL f a # es) = Log CRITICAL f a # above_debug es"
  "above_debug (Exec c # es) = Exec c # above_debug es"
  "above_debug (Sleep d # es) = Sleep d # above_debug es"
  by (simp_all add: above_debug_def)

lemma above_debug_attempt [simp]: "above_debug (attempt_events c n r) = [Exec c]"
  by (simp add: attempt_events_def split: prod.splits)





lemma cut_short_fields [simp]:
  "shell (cut_short j c n w) = shell w"
  "keyboard (cut_short j c n w) = keyboard w"
  "procs (cut_short j c n w) = Suc (procs w)"
  "reads (cut_short j c n w) = reads w"
  "trace (cut_short j c n w) = trace w @ take j (attempt_events c n (shell w c (procs w)))"
  by (simp_all add: cut_short_def)

lemma retry_loop_trace_extends:
  "\<exists>es. trace (snd (retry_loop c m d s ro n w)) = trace w @ es"
proof (induction "nat (m + 1 - n)" arbitrary: n w)
  case 0
  then have "\<not> n \<le> m" by simp
  then show ?case by (simp add: retry_loop_exit)
next
  case (Suc k)
  then have le: "n \<le> m" and k: "k = nat (m + 1 - (n + 1))" by simp_all
  obtain out err rc where r: "shell w c (procs w) = (out, err, rc)"
    by (cases "shell w c (procs w)") auto
  show ?case
  proof (cases "decodable out \<and> decodable err")
    case True
    then have dec: "decodable out" "decodable err" by simp_all
    from Suc.hyps(1)[OF k, of "sleep d (after_attempt c n w)"]
    obtain es where "trace (snd (retry_loop c m d s ro (n + 1) (sleep d (after_attempt c n w))))
       = trace w @ attempt_events c n (shell w c (procs w)) @ Sleep d # es"
      by auto
    then show ?thesis
      unfolding retry_loop_body[OF le r dec] by simp
  next
    case False
    show ?thesis
      unfolding retry_loop_raises[OF le r False] by simp
  qed
qed

lemma retry_loop_not_stuck:
  "retry_loop c m d s ro n (sleep d (after_attempt c k w)) \<noteq> (res, after_attempt c k w)"
proof
  assume a: "retry_loop c m d s ro n (sleep d (after_attempt c k w)) = (res, after_attempt c k w)"
  obtain es where "trace (snd (retry_loop c m d s ro n (sleep d (after_attempt c k w))))
     = trace (sleep d (after_attempt c k w)) @ es"
    using retry_loop_trace_extends by blast
  with a show False by simp
qed


lemma retryable_command_undecodable_output:
  "retryable_command ''gcloud config get-value project'' 3 5 False False garbled_world =
     (Inl UnicodeDecodeError, cut_short 2 ''gcloud config get-value project'' 1 garbled_world)"
proof -
  have le: "(1::int) \<le> 3" by simp
  have r: "shell garbled_world ''gcloud config get-value project'' (procs garbled_world)
             = ([CHR 0xFF], ''failure'', 1)"
    by (simp add: garbled_world_def)
  have bad: "\<not> (decodable [CHR 0xFF] \<and> decodable ''failure'')"
    by (simp add: decodable_def)
  show ?thesis
    unfolding retryable_command_def retry_loop_raises[OF le r bad]
    by (simp add: decodable_def)
qed



text \<open>
  Claim C2, as stated, fails: the only attempt of a call with \<open>max_num_retries = 1\<close> and
  \<open>suppress_errors\<close> (the probe of \<^verbatim>\<open>verify_tos_accepted\<close>, line 84) that ends with
  status 1 is returned at once, with nothing run or slept after it, although the exit
  status is not zero.
\<close>

theorem failed_last_attempt_returned_counterexample:
  "shell flaky_world ''gcloud services enable admin.googleapis.com'' (procs flaky_world)
     = ([], ''first failure'', 1)
   \<and> retry_loop ''gcloud services enable admin.googleapis.com'' 1 5 True False 1 flaky_world
       = (Inr (Some ([], ''first failure'', 1)),
          after_attempt ''gcloud services enable admin.googleapis.com'' 1 flaky_world)
   \<and> \<not> ((retry_loop ''gcloud services enable admin.googleapis.com'' 1 5 True False 1 flaky_world
          = (Inr (Some ([], ''first failure'', 1)),
             after_attempt ''gcloud services enable admin.googleapis.com'' 1 flaky_world))
        \<longleftrightarrow> ((1::int) = 0 \<and> (\<not> False \<or> ([]::string) \<noteq> [])))"
proof -
  have le: "(1::int) \<le> 1" by simp
  have r: "shell flaky_world ''gcloud services enable admin.googleapis.com'' (procs flaky_world)
             = ([], ''first failure'', 1)"
    by (simp add: flaky_world_def blank_world_def)
  have dec: "decodable []" "decodable ''first failure''"
    by (simp_all add: decodable_def)
  show ?thesis
    using r by (simp add: retry_loop_body[OF le r dec])
qed

text \<open>
  Claim C2, amended. At every attempt (a pass through the loop body,
  \<open>num_tries \<le> max_num_retries\<close>) whose subprocess yields (stdout, stderr, return code)
  that decode as UTF-8, the call returns this triple at once, with nothing run or slept
  after the attempt, if and only if the return code is zero and (\<open>require_output\<close> is
  false or stdout is non-empty), or the attempt is the last one and \<open>suppress_errors\<close> is
  set (the failure is then handed to the caller).
\<close>

theorem attempt_returned_iff:
  assumes "num_tries \<le> max_num_retries"
    and "shell w command (procs w) = (stdout, stderr, return_code)"
    and "decodable stdout" and "decodable stderr"
  shows
   "(retry_loop command max_num_retries retry_delay suppress_errors require_output num_tries w =
       (Inr (Some (stdout, stderr, return_code)), after_attempt command num_tries w))
    \<longleftrightarrow> (return_code = 0 \<and> (\<not> require_output \<or> stdout \<noteq> []))
         \<or> (num_tries = max_num_retries \<and> suppress_errors)"
  unfolding retry_loop_body[OF assms]
  using assms(1) by (auto simp: retry_loop_not_stuck)

theorem attempt_returned_iff_witness:
  "(1::int) \<le> 3
   \<and> shell quiet_world ''gcloud config get-value project'' (procs quiet_world) = ([], [], 0)
   \<and> decodable []
   \<and> retry_loop ''gcloud config get-value project'' 3 5 False False 1 quiet_world =
       (Inr (Some ([], [], 0)), after_attempt ''gcloud config get-value project'' 1 quiet_world)
   \<and> retry_loop ''gcloud config get-value project'' 3 5 False True 1 quiet_world \<noteq>
       (Inr (Some ([], [], 0)), after_attempt ''gcloud config get-value project'' 1 quiet_world)
   \<and> retry_loop ''gcloud config get-value project'' 3 5 True True 3 quiet_world =
       (Inr (Some ([], [], 0)), after_attempt ''gcloud config get-value project'' 3 quiet_world)"
proof -
  have le: "(1::int) \<le> 3" and le3: "(3::int) \<le> 3" by simp_all
  have r: "shell quiet_world ''gcloud config get-value project'' (procs quiet_world) = ([], [], 0)"
    by (simp add: quiet_world_def blank_world_def)
  have dec: "decodable []" by (simp add: decodable_def)
  show ?thesis
    using le r dec
      attempt_returned_iff[OF le r dec dec, where retry_delay = 5 and suppress_errors = False
          and require_output = False]
      attempt_returned_iff[OF le r dec dec, where retry_delay = 5 and suppress_errors = False
          and require_output = True]
      attempt_returned_iff[OF le3 r dec dec, where retry_delay = 5 and suppress_errors = True
          and require_output = True]
    by simp
qed

text \<open>
  Claim C10. With \<open>max_num_retries < 1\<close> the loop body never runs: the world is unchanged
  (no subprocess, no log record) and the call returns \<^verbatim>\<open>None\<close>, so unpacking the result
  into three names, as \<^verbatim>\<open>get_project_id\<close> and the other callers do, raises
  \<^verbatim>\<open>TypeError\<close>.
\<close>

theorem retryable_command_without_attempts:
  assumes "max_num_retries < 1"
  shows "retryable_command command max_num_retries retry_delay suppress_errors require_output w
           = (Inr None, w)
         \<and> (case fst (retryable_command command max_num_retries retry_delay suppress_errors
                         require_output w) of
              Inl e \<Rightarrow> False
            | Inr v \<Rightarrow> unpack3 v = Inl TypeError)"
  using assms by (simp add: retryable_command_def retry_loop_exit unpack3_def)

theorem retryable_command_without_attempts_witness:
  "(0::int) < 1
   \<and> retryable_command ''gcloud config get-value project'' 0 5 True True quiet_world
       = (Inr None, quiet_world)
   \<and> trace (snd (retryable_command ''gcloud config get-value project'' 0 5 True True quiet_world)) = []
   \<and> unpack3 None = Inl TypeError"
  using retryable_command_without_attempts
          [of 0 "''gcloud config get-value project''" 5 True True quiet_world]
  by (simp add: quiet_world_def blank_world_def unpack3_def)

section \<open>Properties of verify\_tos\_accepted\<close>

lemma lower_char_n: "lower_char c = CHR ''n'' \<longleftrightarrow> c = CHR ''n'' \<or> c = CHR ''N''"
  by (auto simp: lower_char_def split: if_splits)

lemma lower_eq_n: "lower s = ''n'' \<longleftrightarrow> s = ''n'' \<or> s = ''N''"
proof (cases s)
  case Nil
  then show ?thesis by (simp add: lower_def)
next
  case (Cons c cs)
  then show ?thesis by (cases cs) (auto simp: lower_def lower_char_n)
qed

lemma probe_once:
  assumes "shell w c (procs w) = (out, err, rc)" and "decodable out" and "decodable err"
  shows "retryable_command c 1 d True ro w = (Inr (Some (out, err, rc)), after_attempt c 1 w)"
proof -
  have le: "(1::int) \<le> 1" by simp
  show ?thesis
    unfolding retryable_command_def retry_loop_body[OF le assms] by simp
qed

lemma probe_raises:
  assumes "shell w c (procs w) = (out, err, rc)" and "\<not> (decodable out \<and> decodable err)"
  shows "retryable_command c 1 d True ro w =
           (Inl UnicodeDecodeError, cut_short (if decodable out then 3 else 2) c 1 w)"
proof -
  have le: "(1::int) \<le> 1" by simp
  show ?thesis
    unfolding retryable_command_def retry_loop_raises[OF le assms] by simp
qed

lemma emit_fields [simp]:
  "shell (emit e w) = shell w"
  "keyboard (emit e w) = keyboard w"
  "procs (emit e w) = procs w"
  "reads (emit e w) = reads w"
  "trace (emit e w) = trace w @ [e]"
  by (simp_all add: emit_def)

lemma py_print_fields [simp]:
  "shell (py_print s w) = shell w"
  "keyboard (py_print s w) = keyboard w"
  "procs (py_print s w) = procs w"
  "reads (py_print s w) = reads w"
  "trace (py_print s w) = trace w @ [Print s]"
  by (simp_all add: py_print_def)

lemma execs_simps [simp]:
  "execs [] = []"
  "execs (xs @ ys) = execs xs @ execs ys"
  "execs (Exec c # es) = Exec c # execs es"
  "execs (Sleep d # es) = execs es"
  "execs (Log l f a # es) = execs es"
  "execs (Print s # es) = execs es"
  "execs (Prompt s # es) = execs es"
  by (simp_all add: execs_def)

lemma execs_attempt [simp]: "execs (attempt_events c n r) = [Exec c]"
  by (simp add: attempt_events_def split: prod.splits)

lemma tos_notice_fields [simp]:
  "shell (tos_notice err w) = shell w"
  "keyboard (tos_notice err w) = keyboard w"
  "procs (tos_notice err w) = procs w"
  "reads (tos_notice err w) = reads w"
  by (simp_all add: tos_notice_def)

lemma tos_notice_trace: "\<exists>es. trace (tos_notice err w) = trace w @ es \<and> execs es = []"
  by (simp add: tos_notice_def)

lemma blocked_cycle_fields [simp]:
  "shell (blocked_cycle apis w) = shell w"
  "keyboard (blocked_cycle apis w) = keyboard w"
  "procs (blocked_cycle apis w) = Suc (procs w)"
  "reads (blocked_cycle apis w) = Suc (reads w)"
  by (simp_all add: blocked_cycle_def Let_def)

lemma blocked_cycle_trace:
  "\<exists>es. trace (blocked_cycle apis w) = trace w @ es \<and> execs es = [Exec (probe_command apis)]"
proof -
  obtain es where "trace (tos_notice (stderr_of (shell w (probe_command apis) (procs w)))
        (after_attempt (probe_command apis) 1 w)) = trace (after_attempt (probe_command apis) 1 w) @ es"
     "execs es = []"
    using tos_notice_trace by blast
  then show ?thesis
    by (intro exI[where x = "attempt_events (probe_command apis) 1
          (shell w (probe_command apis) (procs w)) @ es @ [Prompt tos_prompt]"])
       (simp add: blocked_cycle_def Let_def)
qed

lemma tos_loop_accepted: "tos_loop apis True w = Some (Inr (), w)"
  by (subst tos_loop.simps) simp

lemma tos_loop_probe:
  assumes "apis \<noteq> []" and "shell w (probe_command apis) (procs w) = (out, err, rc)"
    and "decodable out" and "decodable err"
  shows "tos_loop apis False w =
     (if rc \<noteq> 0 then
        if contains ''UREQ_TOS_NOT_ACCEPTED'' err then
          case keyboard w (reads w) of
            None \<Rightarrow> Some (Inl EOFError,
                      emit (Prompt tos_prompt)
                        (tos_notice err (after_attempt (probe_command apis) 1 w)))
          | Some answer \<Rightarrow>
              if lower answer = ''n'' then Some (Inl (SystemExit 0), blocked_cycle apis w)
              else tos_loop apis False (blocked_cycle apis w)
        else Some (Inl (SystemExit 1),
               logging CRITICAL err [] (after_attempt (probe_command apis) 1 w))
      else Some (Inr (), after_attempt (probe_command apis) 1 w))"
  apply (subst tos_loop.simps)
  apply (fold probe_command_def)
  using assms
  apply (simp add: Let_def probe_once[OF assms(2,3,4)] unpack3_def tos_loop_accepted decode_def
        py_input_def tos_notice_def blocked_cycle_def stderr_of_def
        split: option.splits)
  done

lemma tos_loop_probe_raises:
  assumes "apis \<noteq> []" and "shell w (probe_command apis) (procs w) = (out, err, rc)"
    and "\<not> (decodable out \<and> decodable err)"
  shows "tos_loop apis False w =
           Some (Inl UnicodeDecodeError,
                 cut_short (if decodable out then 3 else 2) (probe_command apis) 1 w)"
  apply (subst tos_loop.simps)
  apply (fold probe_command_def)
  using assms(1)
  apply (simp add: Let_def probe_raises[OF assms(2,3)])
  done

lemma tos_refused_shift:
  "tos_refused apis (blocked_cycle apis w) i = tos_refused apis w (Suc i)"
  by (simp add: tos_refused_def)

lemma tos_loop_blocked:
  assumes "apis \<noteq> []" and "tos_refused apis w 0"
  shows "tos_loop apis False w = tos_loop apis False (blocked_cycle apis w)"
proof -
  obtain out err rc where r: "shell w (probe_command apis) (procs w) = (out, err, rc)"
    by (cases "shell w (probe_command apis) (procs w)") auto
  from assms(2) r have f: "rc \<noteq> 0" "contains ''UREQ_TOS_NOT_ACCEPTED'' err"
    and dec: "decodable out" "decodable err"
    by (simp_all add: tos_refused_def)
  from assms(2) obtain a where a: "keyboard w (reads w) = Some a" "a \<noteq> ''n''" "a \<noteq> ''N''"
    by (auto simp: tos_refused_def split: option.splits)
  then have "lower a \<noteq> ''n''" by (simp add: lower_eq_n)
  with f a show ?thesis by (simp add: tos_loop_probe[OF assms(1) r dec])
qed

lemma tos_loop_cycles:
  assumes "apis \<noteq> []" and "\<forall>i<k. tos_refused apis w i"
  shows "tos_loop apis False w = tos_loop apis False ((blocked_cycle apis ^^ k) w)
       \<and> shell ((blocked_cycle apis ^^ k) w) = shell w
       \<and> keyboard ((blocked_cycle apis ^^ k) w) = keyboard w
       \<and> procs ((blocked_cycle apis ^^ k) w) = procs w + k
       \<and> reads ((blocked_cycle apis ^^ k) w) = reads w + k
       \<and> (\<exists>es. trace ((blocked_cycle apis ^^ k) w) = trace w @ es
              \<and> execs es = replicate k (Exec (probe_command apis)))"
  using assms(2)
proof (induction k)
  case 0
  show ?case by simp
next
  case (Suc k)
  let ?wk = "(blocked_cycle apis ^^ k) w"
  from Suc have IH: "tos_loop apis False w = tos_loop apis False ?wk"
      "shell ?wk = shell w" "keyboard ?wk = keyboard w"
      "procs ?wk = procs w + k" "reads ?wk = reads w + k"
    by simp_all
  from Suc obtain es where es: "trace ?wk = trace w @ es"
      "execs es = replicate k (Exec (probe_command apis))"
    by auto
  from Suc.prems have "tos_refused apis w k" by simp
  then have "tos_refused apis ?wk 0" using IH by (simp add: tos_refused_def)
  then have step: "tos_loop apis False ?wk = tos_loop apis False (blocked_cycle apis ?wk)"
    by (rule tos_loop_blocked[OF assms(1)])
  obtain es' where es': "trace (blocked_cycle apis ?wk) = trace ?wk @ es'"
      "execs es' = [Exec (probe_command apis)]"
    using blocked_cycle_trace by blast
  have "trace (blocked_cycle apis ?wk) = trace w @ (es @ es')
        \<and> execs (es @ es') = replicate (Suc k) (Exec (probe_command apis))"
    using es es' by (simp add: replicate_append_same)
  then have "\<exists>es. trace (blocked_cycle apis ?wk) = trace w @ es
        \<and> execs es = replicate (Suc k) (Exec (probe_command apis))" by blast
  then show ?case using IH step by simp
qed

lemma tos_loop_returns_only_if_released:
  assumes "tos_loop apis acc w = Some y"
  shows "apis \<noteq> [] \<and> \<not> acc \<and> (\<forall>i. tos_refused apis w i) \<longrightarrow> False"
proof (rule tos_loop.raw_induct[where P = "\<lambda>apis acc w y.
          apis \<noteq> [] \<and> \<not> acc \<and> (\<forall>i. tos_refused apis w i) \<longrightarrow> False", OF _ assms],
       goal_cases)
  case (1 f apis acc w y)
  show ?case
  proof
    assume inv: "apis \<noteq> [] \<and> \<not> acc \<and> (\<forall>i. tos_refused apis w i)"
    then have r0: "tos_refused apis w 0" by blast
    obtain out err rc where r: "shell w (probe_command apis) (procs w) = (out, err, rc)"
      by (cases "shell w (probe_command apis) (procs w)") auto
    from r0 r have f: "rc \<noteq> 0" "contains ''UREQ_TOS_NOT_ACCEPTED'' err"
      and dec: "decodable out" "decodable err"
      by (simp_all add: tos_refused_def)
    from r0 obtain a where a: "keyboard w (reads w) = Some a" "a \<noteq> ''n''" "a \<noteq> ''N''"
      by (auto simp: tos_refused_def split: option.splits)
    then have nl: "lower a \<noteq> ''n''" by (simp add: lower_eq_n)
    have "f apis acc (blocked_cycle apis w) = Some y"
      using 1(2)[folded probe_command_def] inv r f a nl dec
      by (cases "contains ''universal'' err"; cases "contains ''appsadmin'' err";
          simp add: Let_def probe_once[OF r dec] unpack3_def py_input_def tos_notice_def
            blocked_cycle_def stderr_of_def decode_def)
    then have "apis \<noteq> [] \<and> \<not> acc \<and> (\<forall>i. tos_refused apis (blocked_cycle apis w) i) \<longrightarrow> False"
      by (rule 1(1))
    with inv show False by (simp add: tos_refused_shift)
  qed
qed

lemma tos_loop_never_returns:
  assumes "apis \<noteq> []" and "\<forall>i. tos_refused apis w i"
  shows "tos_loop apis False w = None"
proof (cases "tos_loop apis False w")
  case None
  then show ?thesis .
next
  case (Some y)
  from tos_loop_returns_only_if_released[OF Some] assms show ?thesis by simp
qed

text \<open>
  Claim C3. A probe that fails with the terms-of-service marker in its stderr (its output
  being UTF-8, without which \<open>tos_loop_probe_raises\<close> applies) leads to the prompt. If the operator answers \<^verbatim>\<open>n\<close> or \<^verbatim>\<open>N\<close> the process exits with status 0; on
  every other answer the loop is back where it was, one subprocess and one line later, and
  runs the same probe command again. No number of passes is the last: after \<open>k\<close> refused
  passes the loop has run the probe \<open>k\<close> times and goes on, and if every probe is refused
  the loop never returns.
\<close>

theorem tos_prompt_cancels_or_probes_again:
  assumes "apis \<noteq> []"
  shows
   "(shell w (probe_command apis) (procs w) = (out, err, rc) \<and> rc \<noteq> 0
       \<and> decodable out \<and> decodable err
       \<and> contains ''UREQ_TOS_NOT_ACCEPTED'' err \<and> keyboard w (reads w) = Some answer \<longrightarrow>
       (if answer = ''n'' \<or> answer = ''N''
        then tos_loop apis False w = Some (Inl (SystemExit 0), blocked_cycle apis w)
        else tos_loop apis False w = tos_loop apis False (blocked_cycle apis w)))
    \<and> (\<forall>k. (\<forall>i<k. tos_refused apis w i) \<longrightarrow>
          tos_loop apis False w = tos_loop apis False ((blocked_cycle apis ^^ k) w)
          \<and> procs ((blocked_cycle apis ^^ k) w) = procs w + k
          \<and> execs (since w ((blocked_cycle apis ^^ k) w)) = replicate k (Exec (probe_command apis)))
    \<and> ((\<forall>i. tos_refused apis w i) \<longrightarrow> tos_loop apis False w = None)"
proof (intro conjI allI impI)
  assume a: "shell w (probe_command apis) (procs w) = (out, err, rc) \<and> rc \<noteq> 0
       \<and> decodable out \<and> decodable err
       \<and> contains ''UREQ_TOS_NOT_ACCEPTED'' err \<and> keyboard w (reads w) = Some answer"
  then have r: "shell w (probe_command apis) (procs w) = (out, err, rc)"
    and dec: "decodable out" "decodable err" by simp_all
  show "if answer = ''n'' \<or> answer = ''N''
        then tos_loop apis False w = Some (Inl (SystemExit 0), blocked_cycle apis w)
        else tos_loop apis False w = tos_loop apis False (blocked_cycle apis w)"
    using a lower_eq_n[of answer] by (simp add: tos_loop_probe[OF assms r dec])
next
  fix k assume a: "\<forall>i<k. tos_refused apis w i"
  from tos_loop_cycles[OF assms a]
  show "tos_loop apis False w = tos_loop apis False ((blocked_cycle apis ^^ k) w)" by simp
  from tos_loop_cycles[OF assms a]
  show "procs ((blocked_cycle apis ^^ k) w) = procs w + k" by simp
  from tos_loop_cycles[OF assms a]
  show "execs (since w ((blocked_cycle apis ^^ k) w)) = replicate k (Exec (probe_command apis))"
    by (auto simp: since_def)
next
  assume "\<forall>i. tos_refused apis w i"
  then show "tos_loop apis False w = None" by (rule tos_loop_never_returns[OF assms])
qed

lemma APIS_nonempty: "APIS \<noteq> []"
  by (simp add: APIS_def)

lemma probe_command_APIS: "probe_command APIS = ''gcloud services enable admin.googleapis.com''"
  by (simp add: probe_command_def APIS_def)

theorem tos_prompt_cancels_or_probes_again_witness:
  "APIS \<noteq> []
   \<and> tos_loop APIS False cancel_world = Some (Inl (SystemExit 0), blocked_cycle APIS cancel_world)
   \<and> tos_loop APIS False tos_world =
       tos_loop APIS False ((blocked_cycle APIS ^^ 2) tos_world)
   \<and> execs (since tos_world ((blocked_cycle APIS ^^ 2) tos_world)) =
       [Exec ''gcloud services enable admin.googleapis.com'',
        Exec ''gcloud services enable admin.googleapis.com'']
   \<and> tos_loop APIS False stubborn_world = None"
proof -
  have c: "shell cancel_world (probe_command APIS) (procs cancel_world)
             = ([], ''ERROR: UREQ_TOS_NOT_ACCEPTED'', 1)"
          "keyboard cancel_world (reads cancel_world) = Some ''N''"
    by (simp_all add: cancel_world_def blank_world_def)
  have m: "contains ''UREQ_TOS_NOT_ACCEPTED'' ''ERROR: UREQ_TOS_NOT_ACCEPTED''"
    "decodable []" "decodable ''ERROR: UREQ_TOS_NOT_ACCEPTED''"
    by (simp_all add: decodable_def)
  have t: "\<forall>i<2. tos_refused APIS tos_world i"
    by (simp add: tos_refused_def tos_world_def blank_world_def numeral_2_eq_2 All_less_Suc
          decodable_def)
  have s: "\<forall>i. tos_refused APIS stubborn_world i"
    by (simp add: tos_refused_def stubborn_world_def blank_world_def decodable_def)
  note A = tos_prompt_cancels_or_probes_again[OF APIS_nonempty, where w = cancel_world
      and out = "[]" and err = "''ERROR: UREQ_TOS_NOT_ACCEPTED''" and rc = 1 and answer = "''N''",
      THEN conjunct1]
  note B = tos_prompt_cancels_or_probes_again[OF APIS_nonempty, where w = tos_world
      and out = "[]" and err = "[]" and rc = 0 and answer = "[]",
      THEN conjunct2, THEN conjunct1, THEN spec, where x = 2]
  note C = tos_prompt_cancels_or_probes_again[OF APIS_nonempty, where w = stubborn_world
      and out = "[]" and err = "[]" and rc = 0 and answer = "[]",
      THEN conjunct2, THEN conjunct2]
  have 1: "tos_loop APIS False cancel_world
             = Some (Inl (SystemExit 0), blocked_cycle APIS cancel_world)"
    using A c m by simp
  have 2: "tos_loop APIS False tos_world = tos_loop APIS False ((blocked_cycle APIS ^^ 2) tos_world)"
     "execs (since tos_world ((blocked_cycle APIS ^^ 2) tos_world)) =
       [Exec ''gcloud services enable admin.googleapis.com'',
        Exec ''gcloud services enable admin.googleapis.com'']"
    using B t by (simp_all add: probe_command_APIS numeral_2_eq_2)
  have 3: "tos_loop APIS False stubborn_world = None"
    using C s by simp
  show ?thesis using 1 2 3 by (simp add: APIS_nonempty)
qed

lemma verify_tos_accepted_fatal:
  assumes "shell w (probe_command APIS) (procs w) = (out, err, rc)" and "rc \<noteq> 0"
    and "\<not> contains ''UREQ_TOS_NOT_ACCEPTED'' err"
    and "decodable out" and "decodable err"
  shows "verify_tos_accepted w =
           Some (Inl (SystemExit 1),
                 logging CRITICAL err []
                   (after_attempt (probe_command APIS) 1
                      (logging INFO ''Verifying acceptance of Terms of service...'' [] w)))"
proof -
  let ?w = "logging INFO ''Verifying acceptance of Terms of service...'' [] w"
  have r: "shell ?w (probe_command APIS) (procs ?w) = (out, err, rc)" using assms(1) by simp
  show ?thesis
    unfolding verify_tos_accepted_def tos_loop_probe[OF APIS_nonempty r assms(4,5)]
    using assms(2,3) by simp
qed

lemma verify_tos_accepted_undecodable_probe:
  "map_option fst (verify_tos_accepted mangled_world) = Some (Inl UnicodeDecodeError)
   \<and> above_debug (trace (snd (the (verify_tos_accepted mangled_world)))) =
       [Log INFO ''Verifying acceptance of Terms of service...'' [],
        Exec ''gcloud services enable admin.googleapis.com'']"
proof -
  let ?w = "logging INFO ''Verifying acceptance of Terms of service...'' [] mangled_world"
  have r: "shell ?w (probe_command APIS) (procs ?w) = ([], [CHR 0xC3, CHR 0x28], 1)"
    by (simp add: mangled_world_def blank_world_def)
  have bad: "\<not> (decodable [] \<and> decodable [CHR 0xC3, CHR 0x28])"
    by (simp add: decodable_def continuation_def)
  show ?thesis
    unfolding verify_tos_accepted_def tos_loop_probe_raises[OF APIS_nonempty r bad]
    by (simp add: decodable_def cut_short_def attempt_events_def probe_command_APIS
          mangled_world_def blank_world_def logging_def emit_def above_debug_def
          create_subprocess_shell_def)
qed

text \<open>
  Claim C4, as stated, fails: a probe that fails with status 2 and no marker in its stderr
  ends the process with status 1, not 2.
\<close>

theorem tos_probe_other_failure_exit_status_counterexample:
  "return_code_of (shell denied_world (probe_command APIS) (procs denied_world)) = 2
   \<and> \<not> contains ''UREQ_TOS_NOT_ACCEPTED''
         (stderr_of (shell denied_world (probe_command APIS) (procs denied_world)))
   \<and> map_option fst (verify_tos_accepted denied_world) = Some (Inl (SystemExit 1))
   \<and> map_option fst (verify_tos_accepted denied_world) \<noteq>
       Some (Inl (SystemExit
         (return_code_of (shell denied_world (probe_command APIS) (procs denied_world)))))"
proof -
  have r: "shell denied_world (probe_command APIS) (procs denied_world)
             = ([], ''ERROR: PERMISSION_DENIED'', 2)"
    by (simp add: denied_world_def blank_world_def)
  have m: "\<not> contains ''UREQ_TOS_NOT_ACCEPTED'' ''ERROR: PERMISSION_DENIED''" by simp
  have dec: "decodable []" "decodable ''ERROR: PERMISSION_DENIED''"
    by (simp_all add: decodable_def)
  have "(2::int) \<noteq> 0" by simp
  from verify_tos_accepted_fatal[OF r this m dec] r m show ?thesis
    by (simp add: return_code_of_def stderr_of_def)
qed

text \<open>
  Claim C4, amended. A probe that fails without the terms-of-service marker in its stderr
  ends the process with exit status 1, whatever the probe's own (non-zero) status, after
  the captured stderr is logged as critical. This is for captured output that is UTF-8:
  on any other output the probe ends in \<^verbatim>\<open>UnicodeDecodeError\<close>, with no critical record
  and no \<^verbatim>\<open>SystemExit\<close> (\<open>tos_loop_probe_raises\<close>).
\<close>

theorem tos_probe_other_failure_exits_1:
  assumes "apis \<noteq> []"
    and "shell w (probe_command apis) (procs w) = (out, err, rc)"
    and "decodable out" and "decodable err"
    and "rc \<noteq> 0"
    and "\<not> contains ''UREQ_TOS_NOT_ACCEPTED'' err"
  shows "tos_loop apis False w =
           Some (Inl (SystemExit 1),
                 logging CRITICAL err [] (after_attempt (probe_command apis) 1 w))
         \<and> (apis = APIS \<longrightarrow> map_option fst (verify_tos_accepted w) = Some (Inl (SystemExit 1)))"
  using assms verify_tos_accepted_fatal[of w out err rc]
  by (auto simp: tos_loop_probe[OF assms(1,2,3,4)])

theorem tos_probe_other_failure_exits_1_witness:
  "APIS \<noteq> []
   \<and> shell denied_world (probe_command APIS) (procs denied_world)
       = ([], ''ERROR: PERMISSION_DENIED'', 2)
   \<and> decodable ''ERROR: PERMISSION_DENIED''
   \<and> (2::int) \<noteq> 0
   \<and> \<not> contains ''UREQ_TOS_NOT_ACCEPTED'' ''ERROR: PERMISSION_DENIED''
   \<and> tos_loop APIS False denied_world =
       Some (Inl (SystemExit 1),
             logging CRITICAL ''ERROR: PERMISSION_DENIED'' []
               (after_attempt ''gcloud services enable admin.googleapis.com'' 1 denied_world))
   \<and> map_option fst (verify_tos_accepted denied_world) = Some (Inl (SystemExit 1))"
proof -
  have r: "shell denied_world (probe_command APIS) (procs denied_world)
             = ([], ''ERROR: PERMISSION_DENIED'', 2)"
    by (simp add: denied_world_def blank_world_def)
  have m: "\<not> contains ''UREQ_TOS_NOT_ACCEPTED'' ''ERROR: PERMISSION_DENIED''" by simp
  have dec: "decodable []" "decodable ''ERROR: PERMISSION_DENIED''"
    by (simp_all add: decodable_def)
  have z: "(2::int) \<noteq> 0" by simp
  from tos_probe_other_failure_exits_1[OF APIS_nonempty r dec z m] r m dec
  show ?thesis by (simp add: APIS_nonempty probe_command_APIS)
qed

section \<open>Properties of is\_service\_disabled\<close>

text \<open>
  Claim C9. Whenever the response parses and the subscripts
  \<^verbatim>\<open>["error"]["errors"][0]["reason"]\<close> all succeed, \<open>is_service_disabled\<close> returns
  \<^verbatim>\<open>True\<close>, whatever value the reason field holds: the first operand of the \<^verbatim>\<open>or\<close>
  is a non-empty string literal, so the containment test is never reached.
\<close>

theorem is_service_disabled_ignores_reason:
  assumes "loads raw = Some api_response"
    and "error_reason_of api_response = Inr error_reason"
  shows "is_service_disabled loads (Some raw) = True"
  using assms by (simp add: is_service_disabled_def json_loads_def then_do_def truthy_def)

theorem is_service_disabled_ignores_reason_witness:
  "sample_loads ''rate-limit-body'' = Some rate_limit_response
   \<and> error_reason_of rate_limit_response = Inr (JStr ''rateLimitExceeded'')
   \<and> py_in ''notACalendarUser'' (JStr ''rateLimitExceeded'') = Inr False
   \<and> py_in ''notFound'' (JStr ''rateLimitExceeded'') = Inr False
   \<and> py_in ''authError'' (JStr ''rateLimitExceeded'') = Inr False
   \<and> is_service_disabled sample_loads (Some ''rate-limit-body'') = True"
proof -
  have l: "sample_loads ''rate-limit-body'' = Some rate_limit_response"
    by (simp add: sample_loads_def)
  have r: "error_reason_of rate_limit_response = Inr (JStr ''rateLimitExceeded'')"
    by (simp add: error_reason_of_def rate_limit_response_def then_do_def index_def)
  from is_service_disabled_ignores_reason[where loads = sample_loads
      and raw = "''rate-limit-body''", OF l r] l r show ?thesis by simp
qed

section \<open>Properties of the delegation URL\<close>

lemma of_char_less_256: "(of_char c :: nat) < 256"
proof -
  have "(of_char (char_of (of_char c :: nat) :: char) :: nat) = of_char c mod 256"
    by (rule of_char_of)
  then have "(of_char c :: nat) = of_char c mod 256" by simp
  then show ?thesis by (metis mod_less_divisor zero_less_numeral)
qed

lemma hexval_hexdigit: "n < 16 \<Longrightarrow> hexval (hexdigit n) = Some n"
  by (simp add: hexval_def hexdigit_def Let_def)

lemma char_of_hex_pair:
  "char_of (16 * ((of_char c :: nat) div 16) + (of_char c :: nat) mod 16) = c"
  by simp

lemma always_safe_not_percent: "always_safe c \<Longrightarrow> c \<noteq> CHR ''%''"
  by (auto simp: always_safe_def Let_def)

lemma unquote_other: "c \<noteq> CHR ''%'' \<Longrightarrow> unquote (c # s) = c # unquote s"
proof (cases s)
  case Nil
  then show ?thesis by simp
next
  case (Cons a t)
  assume c: "c \<noteq> CHR ''%''"
  show ?thesis
  proof (cases t)
    case Nil
    with Cons show ?thesis by simp
  next
    case (Cons b r)
    with \<open>s = a # t\<close> c show ?thesis by simp
  qed
qed

lemma unquote_quoter: "unquote (quoter c @ s) = c # unquote s"
proof (cases "always_safe c")
  case True
  then show ?thesis by (simp add: quoter_def unquote_other always_safe_not_percent)
next
  case False
  have "(of_char c :: nat) < 16 * 16" using of_char_less_256[of c] by simp
  then have "(of_char c :: nat) div 16 < 16" by (rule less_mult_imp_div_less)
  moreover have "(of_char c :: nat) mod 16 < 16" by simp
  ultimately have "(of_char c :: nat) div 16 < 16" "(of_char c :: nat) mod 16 < 16" by simp_all
  then show ?thesis
    using False by (simp add: quoter_def hexval_hexdigit)
qed

lemma unquote_quote: "unquote (quote s) = s"
  by (induction s) (simp_all add: quote_def unquote_quoter)

lemma quote_append: "quote (xs @ ys) = quote xs @ quote ys"
  by (simp add: quote_def)

lemma char_ofI: "(of_char c :: nat) = n \<Longrightarrow> char_of n = c"
  by auto

lemma quote_comma: "quote '','' = ''%2C''"
proof -
  have "char_of (50 :: nat) = CHR ''2''" "char_of (67 :: nat) = CHR ''C''"
    by (rule char_ofI, simp)+
  then show ?thesis
    by (simp add: quote_def quoter_def always_safe_def hexdigit_def Let_def)
qed

lemma quote_join_sep: "quote (join sep xs) = join (quote sep) (map quote xs)"
  by (induction sep xs rule: join.induct) (simp_all add: quote_append, simp add: quote_def)

lemma quote_join: "quote (join '','' xs) = join ''%2C'' (map quote xs)"
  unfolding quote_join_sep quote_comma ..

lemma join_comma_joined: "join '','' xs = comma_joined xs"
  by (induction "'',''" xs rule: join.induct) simp_all

lemma split_on_length: "length (split_on sep s) = Suc (length (filter (\<lambda>c. c = sep) s))"
  by (induction s) (auto split: list.splits)

lemma split_on_free: "sep \<notin> set s \<Longrightarrow> split_on sep s = [s]"
  by (induction s) auto

lemma split_on_append: "sep \<notin> set x \<Longrightarrow> split_on sep (x @ sep # rest) = x # split_on sep rest"
  by (induction x) auto

lemma split_on_last: "last (split_on sep (s @ sep # t)) = last (split_on sep t)"
proof (induction s)
  case Nil
  have "split_on sep t \<noteq> []" using split_on_length[of sep t] by auto
  then show ?case by simp
next
  case (Cons c s)
  show ?case
  proof (cases "c = sep")
    case True
    have "split_on sep (s @ sep # t) \<noteq> []" using split_on_length[of sep "s @ sep # t"] by auto
    with True Cons show ?thesis by simp
  next
    case False
    have "2 \<le> length (split_on sep (s @ sep # t))"
      using split_on_length[of sep "s @ sep # t"] by simp
    then obtain p q ps where "split_on sep (s @ sep # t) = p # q # ps"
      by (cases "split_on sep (s @ sep # t)"; cases "tl (split_on sep (s @ sep # t))") auto
    with False Cons show ?thesis by simp
  qed
qed

lemma split_on_comma_joined:
  assumes "xs \<noteq> []" and "\<forall>x\<in>set xs. sep \<notin> set x" and "sep = CHR '',''"
  shows "split_on sep (comma_joined xs) = xs"
  using assms
proof (induction xs)
  case Nil
  then show ?case by simp
next
  case (Cons x xs)
  show ?case
  proof (cases xs)
    case Nil
    with Cons.prems show ?thesis by (simp add: split_on_free)
  next
    case (Cons y ys)
    with Cons.IH Cons.prems have IH: "split_on sep (comma_joined (y # ys)) = y # ys" by simp
    have "comma_joined (x # y # ys) = x @ sep # comma_joined (y # ys)"
      using Cons.prems(3) by simp
    with IH Cons.prems Cons show ?thesis by (simp add: split_on_append del: comma_joined.simps)
  qed
qed

lemma of_char_hexdigit:
  "n < 16 \<Longrightarrow> (of_char (hexdigit n) :: nat) = (if n < 10 then 48 + n else 55 + n)"
  by (simp add: hexdigit_def)

lemma quoter_chars:
  assumes "c \<in> set (quoter x)"
  shows "(of_char c :: nat) \<noteq> 61 \<and> (of_char c :: nat) \<noteq> 44"
proof (cases "always_safe x")
  case True
  with assms have "c = x" by (simp add: quoter_def)
  with True show ?thesis by (auto simp: always_safe_def Let_def)
next
  case False
  have "(of_char x :: nat) < 16 * 16" using of_char_less_256[of x] by simp
  then have d: "(of_char x :: nat) div 16 < 16" by (rule less_mult_imp_div_less)
  have m: "(of_char x :: nat) mod 16 < 16" by simp
  from False assms have "c = CHR ''%'' \<or> c = hexdigit ((of_char x :: nat) div 16)
      \<or> c = hexdigit ((of_char x :: nat) mod 16)"
    by (simp add: quoter_def)
  then show ?thesis
    using of_char_hexdigit[OF d] of_char_hexdigit[OF m] by (auto split: if_splits)
qed

lemma quote_chars: "CHR ''='' \<notin> set (quote s) \<and> CHR '','' \<notin> set (quote s)"
proof -
  have "\<And>c. c \<in> set (quote s) \<Longrightarrow> (of_char c :: nat) \<noteq> 61 \<and> (of_char c :: nat) \<noteq> 44"
    using quoter_chars by (auto simp: quote_def)
  then show ?thesis by fastforce
qed

lemma scope_parameter_DWD: "scope_parameter (DWD_URL_FORMAT a (quote s)) = quote s"
proof -
  have "DWD_URL_FORMAT a (quote s) =
      (''https://admin.google.com/ac/owl/domainwidedelegation?overwriteClientId=true&clientIdToAdd=''
        @ a @ ''&clientScopeToAdd'') @ CHR ''='' # quote s"
    by (simp add: DWD_URL_FORMAT_def)
  then show ?thesis
    unfolding scope_parameter_def
    by (simp only: split_on_last) (simp add: split_on_free quote_chars)
qed

text \<open>
  Claim C7. For every list of scopes and every service account id, both URL builders
  (\<open>trial_authorize_url\<close>, lines 140--141 of trial.py, and \<open>create_auth_url\<close> of new.py)
  give the same URL, which ends with \<^verbatim>\<open>&clientScopeToAdd=\<close> and the parameter. The
  parameter is the percent-encoding of the comma-joined list as one string, so it has no
  comma of its own: the commas between the scopes are encoded with the rest.
  Percent-decoding the parameter gives back exactly the comma-joined list, and splitting
  that at the commas gives back the scopes themselves when there is at least one scope
  and no scope contains a comma.
\<close>

theorem scope_parameter_round_trip:
  "create_auth_url scopes service_account_id = trial_authorize_url scopes service_account_id
   \<and> trial_authorize_url scopes service_account_id =
       ''https://admin.google.com/ac/owl/domainwidedelegation?overwriteClientId=true&clientIdToAdd=''
         @ service_account_id @ ''&clientScopeToAdd=''
         @ scope_parameter (trial_authorize_url scopes service_account_id)
   \<and> scope_parameter (trial_authorize_url scopes service_account_id) = quote (comma_joined scopes)
   \<and> CHR '','' \<notin> set (scope_parameter (trial_authorize_url scopes service_account_id))
   \<and> unquote (scope_parameter (trial_authorize_url scopes service_account_id))
       = comma_joined scopes
   \<and> (scopes \<noteq> [] \<and> (\<forall>s\<in>set scopes. CHR '','' \<notin> set s) \<longrightarrow>
        split_on CHR '',''
          (unquote (scope_parameter (trial_authorize_url scopes service_account_id))) = scopes)"
proof -
  have p: "scope_parameter (trial_authorize_url scopes service_account_id)
             = quote (comma_joined scopes)"
    by (simp add: trial_authorize_url_def scope_parameter_DWD join_comma_joined)
  have u: "trial_authorize_url scopes service_account_id =
       ''https://admin.google.com/ac/owl/domainwidedelegation?overwriteClientId=true&clientIdToAdd=''
         @ service_account_id @ ''&clientScopeToAdd='' @ quote (comma_joined scopes)"
    by (simp add: trial_authorize_url_def DWD_URL_FORMAT_def join_comma_joined)
  have e: "create_auth_url scopes service_account_id
             = trial_authorize_url scopes service_account_id"
    by (simp add: trial_authorize_url_def create_auth_url_def)
  have s: "scopes \<noteq> [] \<and> (\<forall>s\<in>set scopes. CHR '','' \<notin> set s) \<longrightarrow>
        split_on CHR '','' (comma_joined scopes) = scopes"
    using split_on_comma_joined[of scopes "CHR '',''"] by blast
  show ?thesis
    unfolding p using u e s by (simp add: unquote_quote quote_chars)
qed

theorem scope_parameter_round_trip_witness:
  "SCOPES \<noteq> []
   \<and> CHR '','' \<notin> set ''https://www.googleapis.com/auth/drive''
   \<and> CHR '','' \<notin> set ''https://www.googleapis.com/auth/drive.activity.readonly''
   \<and> CHR '','' \<notin> set ''https://www.googleapis.com/auth/admin.directory.user''
   \<and> scope_parameter (trial_authorize_url SCOPES ''104857600'')
       = ''https%3A%2F%2Fwww.googleapis.com%2Fauth%2Fdrive%2Chttps%3A%2F%2Fwww.googleapis.com%2Fauth%2Fdrive.activity.readonly%2Chttps%3A%2F%2Fwww.googleapis.com%2Fauth%2Fadmin.directory.user''
   \<and> unquote (scope_parameter (trial_authorize_url SCOPES ''104857600''))
       = ''https://www.googleapis.com/auth/drive,https://www.googleapis.com/auth/drive.activity.readonly,https://www.googleapis.com/auth/admin.directory.user''
   \<and> split_on CHR '','' (unquote (scope_parameter (trial_authorize_url SCOPES ''104857600'')))
       = [''https://www.googleapis.com/auth/drive'',
          ''https://www.googleapis.com/auth/drive.activity.readonly'',
          ''https://www.googleapis.com/auth/admin.directory.user'']
   \<and> create_auth_url SCOPES ''104857600'' = trial_authorize_url SCOPES ''104857600''"
proof -
  note T = scope_parameter_round_trip[of SCOPES "''104857600''"]
  have n: "SCOPES \<noteq> []" "\<forall>s\<in>set SCOPES. CHR '','' \<notin> set s"
    by (simp_all add: SCOPES_def)
  have j: "comma_joined SCOPES = ''https://www.googleapis.com/auth/drive,https://www.googleapis.com/auth/drive.activity.readonly,https://www.googleapis.com/auth/admin.directory.user''"
    by (simp add: SCOPES_def)
  have h: "char_of (50 :: nat) = CHR ''2''" "char_of (67 :: nat) = CHR ''C''"
    "char_of (51 :: nat) = CHR ''3''" "char_of (65 :: nat) = CHR ''A''"
    "char_of (70 :: nat) = CHR ''F''"
    by (rule char_ofI, simp)+
  have q: "quote (comma_joined SCOPES) = ''https%3A%2F%2Fwww.googleapis.com%2Fauth%2Fdrive%2Chttps%3A%2F%2Fwww.googleapis.com%2Fauth%2Fdrive.activity.readonly%2Chttps%3A%2F%2Fwww.googleapis.com%2Fauth%2Fadmin.directory.user''"
    unfolding j by (simp add: quote_def quoter_def always_safe_def hexdigit_def Let_def h)
  have 1: "scope_parameter (trial_authorize_url SCOPES ''104857600'') = quote (comma_joined SCOPES)"
    by (rule T[THEN conjunct2, THEN conjunct2, THEN conjunct1])
  have 2: "unquote (scope_parameter (trial_authorize_url SCOPES ''104857600''))
             = comma_joined SCOPES"
    by (rule T[THEN conjunct2, THEN conjunct2, THEN conjunct2, THEN conjunct2, THEN conjunct1])
  have 3: "split_on CHR '','' (unquote (scope_parameter (trial_authorize_url SCOPES ''104857600'')))
             = SCOPES"
    using T[THEN conjunct2, THEN conjunct2, THEN conjunct2, THEN conjunct2, THEN conjunct2] n
    by blast
  have 4: "create_auth_url SCOPES ''104857600'' = trial_authorize_url SCOPES ''104857600''"
    by (rule T[THEN conjunct1])
  have a: "scope_parameter (trial_authorize_url SCOPES ''104857600'') = ''https%3A%2F%2Fwww.googleapis.com%2Fauth%2Fdrive%2Chttps%3A%2F%2Fwww.googleapis.com%2Fauth%2Fdrive.activity.readonly%2Chttps%3A%2F%2Fwww.googleapis.com%2Fauth%2Fadmin.directory.user''"
    by (simp only: 1 q)
  have b: "unquote (scope_parameter (trial_authorize_url SCOPES ''104857600''))
       = ''https://www.googleapis.com/auth/drive,https://www.googleapis.com/auth/drive.activity.readonly,https://www.googleapis.com/auth/admin.directory.user''"
    by (simp only: 2 j)
  have c: "split_on CHR '','' (unquote (scope_parameter (trial_authorize_url SCOPES ''104857600'')))
       = [''https://www.googleapis.com/auth/drive'',
          ''https://www.googleapis.com/auth/drive.activity.readonly'',
          ''https://www.googleapis.com/auth/admin.directory.user'']"
    by (simp only: 3) (simp add: SCOPES_def)
  have 5: "CHR '','' \<notin> set ''https://www.googleapis.com/auth/drive''"
    "CHR '','' \<notin> set ''https://www.googleapis.com/auth/drive.activity.readonly''"
    "CHR '','' \<notin> set ''https://www.googleapis.com/auth/admin.directory.user''"
    by simp_all
  show ?thesis
    by (intro conjI) (fact n(1) 5 a b c 4)+
qed

section \<open>Properties of the creation step\<close>






end
